theory Spec2Isabelle
  imports Main "HOL-Library.Word" "HOL-Library.Signed_Division"
begin

section \<open>The C library functions that cursor.c calls\<close>

text \<open>
  Strings are byte lists; a C string is the list of the bytes before its terminating NUL.
  The character classes are those of the C locale. Memory allocation is taken to succeed:
  \<open>strdup\<close>, \<open>asprintf\<close> and \<open>calloc\<close> return a result of option type, as the source
  tests it, and the model always answers \<open>Some\<close>.
\<close>

definition isspace :: "char \<Rightarrow> bool" where
  "isspace ch = (ch = CHR 0x20 \<or> ch = CHR 0x09 \<or> ch = CHR 0x0A \<or> ch = CHR 0x0B
     \<or> ch = CHR 0x0C \<or> ch = CHR 0x0D)"

definition isdigit :: "char \<Rightarrow> bool" where
  "isdigit ch = (48 \<le> (of_char ch :: nat) \<and> (of_char ch :: nat) \<le> 57)"

text \<open>\<open>strchr s ch\<close>: the offset of the first \<open>ch\<close> in \<open>s\<close>, or \<open>None\<close> for the null pointer.\<close>

fun strchr :: "string \<Rightarrow> char \<Rightarrow> nat option" where
  "strchr [] ch = None"
| "strchr (x # s) ch = (if x = ch then Some 0 else map_option Suc (strchr s ch))"

text \<open>\<open>strcmp\<close>: only the sign of the result is specified by C.\<close>

fun strcmp :: "string \<Rightarrow> string \<Rightarrow> int" where
  "strcmp [] [] = 0"
| "strcmp [] (b # t) = - 1"
| "strcmp (a # s) [] = 1"
| "strcmp (a # s) (b # t) =
     (if a = b then strcmp s t else if (of_char a :: nat) < of_char b then - 1 else 1)"

definition strdup :: "string \<Rightarrow> string option" where
  "strdup s = Some s"

text \<open>
  \<open>asprintf(&rm, "%.*s", n, p)\<close>: a fresh C string holding the bytes of \<open>p\<close> up to the
  first NUL, and at most \<open>n\<close> of them.
\<close>

definition asprintf_prec :: "nat \<Rightarrow> string \<Rightarrow> string option" where
  "asprintf_prec n p = Some (takeWhile (\<lambda>ch. ch \<noteq> CHR 0x00) (take n p))"

text \<open>
  \<open>strtok_r\<close> with the delimiter set \<open>"\n"\<close>, on the unread rest of the buffer: it skips
  the delimiters in front, returns the token up to the next delimiter and leaves the
  save pointer behind that delimiter; \<open>None\<close> when no token is left.
\<close>

definition strtok_r :: "string \<Rightarrow> (string \<times> string) option" where
  "strtok_r str =
     (let s = dropWhile (\<lambda>ch. ch = CHR 0x0A) str in
      if s = [] then None
      else Some (takeWhile (\<lambda>ch. ch \<noteq> CHR 0x0A) s, drop 1 (dropWhile (\<lambda>ch. ch \<noteq> CHR 0x0A) s)))"

text \<open>
  \<open>atoi\<close> is \<open>(int) strtol(nptr, NULL, 10)\<close>: white space, an optional sign, then the
  decimal digits in front. \<open>strtol\<close> saturates at the bounds of a 64-bit \<open>long\<close>, and the
  conversion to the 32-bit \<open>int\<close> keeps the low 32 bits (two's complement).
\<close>

definition LONG_MAX :: int where
  "LONG_MAX = 2 ^ 63 - 1"

definition LONG_MIN :: int where
  "LONG_MIN = - (2 ^ 63)"

fun strtol_digits :: "int \<Rightarrow> string \<Rightarrow> int" where
  "strtol_digits acc [] = acc"
| "strtol_digits acc (ch # s) =
     (if isdigit ch then strtol_digits (acc * 10 + (of_char ch - 48)) s else acc)"

definition strtol :: "string \<Rightarrow> int" where
  "strtol nptr =
     (let s = dropWhile isspace nptr in
      case s of
        [] \<Rightarrow> 0
      | ch # r \<Rightarrow>
          if ch = CHR ''-'' then max LONG_MIN (- strtol_digits 0 r)
          else if ch = CHR ''+'' then min LONG_MAX (strtol_digits 0 r)
          else min LONG_MAX (strtol_digits 0 s))"

text \<open>The value an \<open>int\<close> holds after a computation whose exact result is \<open>k\<close>.\<close>

definition c_int :: "int \<Rightarrow> int" where
  "c_int k = signed_take_bit 31 k"

definition atoi :: "string \<Rightarrow> int" where
  "atoi nptr = c_int (strtol nptr)"

type_synonym environ = "string \<rightharpoonup> string"

definition getenv :: "environ \<Rightarrow> string \<Rightarrow> string option" where
  "getenv env name = env name"

section \<open>The data of cursor.c\<close>

datatype resource_manager_val = RM_XCURSOR_THEME | RM_XCURSOR_SIZE | RM_XFT_DPI

datatype xcb_render_query_pict_formats_reply_t = Pict_formats_reply

text \<open>
  A pointer that owns what it points to is an option: \<open>None\<close> is the null pointer. The
  array \<open>rm\<close> is indexed by the enumeration.
\<close>

record xcb_cursor_context_t =
  rm :: "resource_manager_val \<Rightarrow> string option"
  pf_reply :: "xcb_render_query_pict_formats_reply_t option"
  size_c :: "32 word"

record xcb_screen_t =
  width_in_pixels :: "16 word"
  height_in_pixels :: "16 word"

text \<open>The reply to the property request is modelled by the bytes of its value.\<close>

type_synonym xcb_get_property_reply_t = string

definition xcb_get_property_value_length :: "xcb_get_property_reply_t \<Rightarrow> nat" where
  "xcb_get_property_value_length r = length r"

definition xcb_get_property_value :: "xcb_get_property_reply_t \<Rightarrow> string" where
  "xcb_get_property_value r = r"

section \<open>parse_resource_manager\<close>

text \<open>The three comparisons of the key at the end of the loop body.\<close>

definition assign_rm :: "xcb_cursor_context_t \<Rightarrow> string \<Rightarrow> string \<Rightarrow> xcb_cursor_context_t" where
  "assign_rm c line sep =
     (if strcmp line ''Xcursor.theme'' = 0 then c\<lparr>rm := (rm c)(RM_XCURSOR_THEME := strdup sep)\<rparr>
      else if strcmp line ''Xcursor.size'' = 0 then c\<lparr>rm := (rm c)(RM_XCURSOR_SIZE := strdup sep)\<rparr>
      else if strcmp line ''Xft.dpi'' = 0 then c\<lparr>rm := (rm c)(RM_XFT_DPI := strdup sep)\<rparr>
      else c)"

text \<open>
  The \<open>for\<close> loop, on the part of the buffer \<open>rm\<close> that \<open>strtok_r\<close> has not read yet.
  Writing NUL over the colon ends the key there; \<open>sep\<close> then moves over the white space.
\<close>

function parse_loop :: "xcb_cursor_context_t \<Rightarrow> string \<Rightarrow> xcb_cursor_context_t" where
  "parse_loop c str =
     (case strtok_r str of
        None \<Rightarrow> c
      | Some (line, saveptr) \<Rightarrow>
          (case strchr line CHR '':'' of
             None \<Rightarrow> c
           | Some i \<Rightarrow>
               parse_loop
                 (assign_rm c (take i line) (dropWhile isspace (drop (Suc i) line)))
                 saveptr))"
  by pat_completeness auto
termination
proof (relation "measure (\<lambda>(c, str). length str)")
  show "wf (measure (\<lambda>(c :: xcb_cursor_context_t, str :: string). length str))"
    by simp
next
  fix c :: xcb_cursor_context_t and str line saveptr :: string and x2 :: "string \<times> string" and i :: nat
  assume tok: "strtok_r str = Some x2" and x2: "(line, saveptr) = x2"
  let ?s = "dropWhile (\<lambda>ch. ch = CHR 0x0A) str"
  from tok x2 have ne: "?s \<noteq> []"
    and sv: "saveptr = drop 1 (dropWhile (\<lambda>ch. ch \<noteq> CHR 0x0A) ?s)"
    by (auto simp: strtok_r_def Let_def split: if_splits)
  have "length saveptr \<le> length (dropWhile (\<lambda>ch. ch \<noteq> CHR 0x0A) ?s) - 1"
    using sv by simp
  moreover have "length (dropWhile (\<lambda>ch. ch \<noteq> CHR 0x0A) ?s) \<le> length ?s"
    by (rule length_dropWhile_le)
  moreover have "length ?s \<le> length str"
    by (rule length_dropWhile_le)
  moreover have "0 < length ?s"
    using ne by simp
  moreover have "length saveptr < length ?s"
  proof (cases ?s)
    case Nil
    with ne show ?thesis by simp
  next
    case (Cons a t)
    show ?thesis
    proof (cases "a = CHR 0x0A")
      case True
      with Cons sv show ?thesis by simp
    next
      case False
      have "length (dropWhile (\<lambda>ch. ch \<noteq> CHR 0x0A) t) \<le> length t"
        by (rule length_dropWhile_le)
      with False Cons sv show ?thesis by simp
    qed
  qed
  ultimately show "((assign_rm c (take i line) (dropWhile isspace (drop (Suc i) line)), saveptr), (c, str))
      \<in> measure (\<lambda>(c, str). length str)"
    by simp
qed

definition parse_resource_manager ::
  "xcb_cursor_context_t \<Rightarrow> xcb_get_property_reply_t option \<Rightarrow> xcb_cursor_context_t" where
  "parse_resource_manager c rm_reply =
     (case rm_reply of
        None \<Rightarrow> c
      | Some r \<Rightarrow>
          (let rm_length = xcb_get_property_value_length r in
           if rm_length = 0 then c
           else (case asprintf_prec rm_length (xcb_get_property_value r) of
                   None \<Rightarrow> c
                 | Some rm_buf \<Rightarrow> parse_loop c rm_buf)))"

section \<open>get_default_size\<close>

text \<open>
  The result type is \<open>uint32_t\<close>: every \<open>return\<close> converts its \<open>int\<close> to 32 bits unsigned.
  \<open>dpi * 16\<close> is an \<open>int\<close> product, division truncates towards zero, and \<open>dim\<close> is
  promoted to \<open>int\<close> before it is divided. Where \<open>dpi * 16\<close> leaves the range of \<open>int\<close>
  (\<open>dpi\<close> from \<open>2^27\<close> on) C leaves the result open; the model keeps the low 32 bits of
  the product, as the machine's multiplication does, and divides them as a signed \<open>int\<close>.
  A compiler that takes the product of a positive \<open>dpi\<close> for positive may divide them as
  unsigned instead, which differs where bit 31 of the product is set.
\<close>

definition get_default_size :: "environ \<Rightarrow> xcb_cursor_context_t \<Rightarrow> xcb_screen_t \<Rightarrow> 32 word" where
  "get_default_size env c screen =
     (case getenv env ''XCURSOR_SIZE'' of
        Some e \<Rightarrow> word_of_int (atoi e)
      | None \<Rightarrow>
          (case rm c RM_XCURSOR_SIZE of
             Some s \<Rightarrow> word_of_int (atoi s)
           | None \<Rightarrow>
               (let dim = (if height_in_pixels screen < width_in_pixels screen
                           then height_in_pixels screen else width_in_pixels screen);
                    by_screen = word_of_int (uint dim sdiv 48)
                in case rm c RM_XFT_DPI of
                     None \<Rightarrow> by_screen
                   | Some d \<Rightarrow>
                       (let dpi = atoi d in
                        if dpi > 0 then word_of_int (c_int (dpi * 16) sdiv 72)
                        else by_screen))))"

section \<open>Construction and release of the context\<close>

datatype fault = Null_pointer_dereference

datatype freed = Freed_rm resource_manager_val | Freed_pf_reply | Freed_context

text \<open>\<open>calloc\<close>: every pointer of the fresh context is null and its size is 0.\<close>

definition zero_context :: xcb_cursor_context_t where
  "zero_context = \<lparr>rm = (\<lambda>k. None), pf_reply = None, size_c = 0\<rparr>"

definition calloc_context :: "xcb_cursor_context_t option" where
  "calloc_context = Some zero_context"

text \<open>
  What the server answers is a parameter: the screen, the reply to the property request
  (null when it failed) and the reply to the picture format query.
\<close>

datatype errno = ENOMEM

definition xcb_cursor_context_new ::
  "environ \<Rightarrow> xcb_screen_t \<Rightarrow> xcb_get_property_reply_t option
     \<Rightarrow> xcb_render_query_pict_formats_reply_t option \<Rightarrow> errno + xcb_cursor_context_t" where
  "xcb_cursor_context_new env screen rm_reply pf =
     (case calloc_context of
        None \<Rightarrow> Inl ENOMEM
      | Some c0 \<Rightarrow>
          (let c1 = parse_resource_manager c0 rm_reply;
               c2 = c1\<lparr>pf_reply := pf\<rparr>
           in Inr (c2\<lparr>size_c := get_default_size env c2 screen\<rparr>)))"

text \<open>
  \<open>xcb_cursor_context_free\<close> returns the blocks it hands to \<open>free\<close>, in order. The macro
  \<open>FREE\<close> tests its pointer; \<open>free\<close> of a null pointer does nothing. The first statement
  reads \<open>c->rm\<close>, so a null \<open>c\<close> is dereferenced.
\<close>

definition FREE :: "'a option \<Rightarrow> freed \<Rightarrow> freed list" where
  "FREE p b = (if p \<noteq> None then [b] else [])"

definition xcb_cursor_context_free :: "xcb_cursor_context_t option \<Rightarrow> fault + freed list" where
  "xcb_cursor_context_free c =
     (case c of
        None \<Rightarrow> Inl Null_pointer_dereference
      | Some ctx \<Rightarrow>
          Inr (FREE (rm ctx RM_XCURSOR_THEME) (Freed_rm RM_XCURSOR_THEME)
             @ FREE (rm ctx RM_XCURSOR_SIZE) (Freed_rm RM_XCURSOR_SIZE)
             @ FREE (rm ctx RM_XFT_DPI) (Freed_rm RM_XFT_DPI)
             @ FREE (pf_reply ctx) Freed_pf_reply
             @ [Freed_context]))"

section \<open>The specification's reading of the blob\<close>

text \<open>
  The text of a blob is what \<open>asprintf\<close> copies of it: the bytes in front of the first
  NUL, so no line of the text holds one. Its lines are the pieces between the newlines,
  the empty ones included. A line with a colon has a key, in front of the
  first colon, and a value, behind it and behind the white space that follows.
\<close>

definition rm_text :: "string \<Rightarrow> string" where
  "rm_text r = takeWhile (\<lambda>ch. ch \<noteq> CHR 0x00) r"

fun split_lines :: "string \<Rightarrow> string list" where
  "split_lines [] = [[]]"
| "split_lines (ch # s) =
     (if ch = CHR 0x0A then [] # split_lines s
      else (case split_lines s of [] \<Rightarrow> [[ch]] | l # ls \<Rightarrow> (ch # l) # ls))"

definition key_of :: "string \<Rightarrow> string" where
  "key_of l = takeWhile (\<lambda>ch. ch \<noteq> CHR '':'') l"

definition value_of :: "string \<Rightarrow> string" where
  "value_of l = dropWhile isspace (drop 1 (dropWhile (\<lambda>ch. ch \<noteq> CHR '':'') l))"

definition has_colon :: "string \<Rightarrow> bool" where
  "has_colon l = (CHR '':'' \<in> set l)"

text \<open>
  The lines in order: an empty line is passed over, a line without a colon ends the
  scan, any other line is assigned.
\<close>

fun scan_lines :: "xcb_cursor_context_t \<Rightarrow> string list \<Rightarrow> xcb_cursor_context_t" where
  "scan_lines c [] = c"
| "scan_lines c (l # ls) =
     (if l = [] then scan_lines c ls
      else if has_colon l then scan_lines (assign_rm c (key_of l) (value_of l)) ls
      else c)"

text \<open>The lines that the scan reaches: the non-empty ones in front of the first line without a colon.\<close>

definition scanned_lines :: "string \<Rightarrow> string list" where
  "scanned_lines r = takeWhile has_colon (filter (\<lambda>l. l \<noteq> []) (split_lines (rm_text r)))"

fun rm_name :: "resource_manager_val \<Rightarrow> string" where
  "rm_name RM_XCURSOR_THEME = ''Xcursor.theme''"
| "rm_name RM_XCURSOR_SIZE = ''Xcursor.size''"
| "rm_name RM_XFT_DPI = ''Xft.dpi''"

text \<open>Fixed inputs for the examples.\<close>

definition no_environ :: environ where
  "no_environ = Map.empty"

definition screen_of :: "16 word \<Rightarrow> 16 word \<Rightarrow> xcb_screen_t" where
  "screen_of w h = \<lparr>width_in_pixels = w, height_in_pixels = h\<rparr>"

section \<open>The loop of the source and the scan of the lines\<close>

lemma strcmp_eq_0_iff [simp]: "strcmp a b = 0 \<longleftrightarrow> a = b"
  by (induction a b rule: strcmp.induct) auto

lemma strchr_None_iff: "strchr l ch = None \<longleftrightarrow> ch \<notin> set l"
  by (induction l) auto

lemma strchr_Some_take: "strchr l ch = Some i \<Longrightarrow> take i l = takeWhile (\<lambda>x. x \<noteq> ch) l"
  by (induction l arbitrary: i) (auto split: if_splits)

lemma strchr_Some_drop:
  "strchr l ch = Some i \<Longrightarrow> drop (Suc i) l = drop 1 (dropWhile (\<lambda>x. x \<noteq> ch) l)"
  by (induction l arbitrary: i) (auto split: if_splits)

lemma assign_rm_rm:
  "rm (assign_rm c k v) rk = (if k = rm_name rk then Some v else rm c rk)"
  by (cases rk) (auto simp: assign_rm_def strdup_def)

lemma split_lines_not_Nil [simp]: "split_lines s \<noteq> []"
  by (induction s) (auto split: list.splits)

lemma split_lines_line: "CHR 0x0A \<notin> set l \<Longrightarrow> split_lines (l @ CHR 0x0A # s) = l # split_lines s"
  by (induction l) auto

lemma split_lines_single: "CHR 0x0A \<notin> set l \<Longrightarrow> split_lines l = [l]"
  by (induction l) auto

lemma split_lines_newline: "split_lines (p @ CHR 0x0A # s) = split_lines p @ split_lines s"
  by (induction p) (auto split: list.splits)

lemma split_lines_append:
  "split_lines (p @ s) =
     butlast (split_lines p) @ (last (split_lines p) @ hd (split_lines s)) # tl (split_lines s)"
proof (induction p)
  case Nil
  show ?case by (cases "split_lines s") (use split_lines_not_Nil [of s] in auto)
next
  case (Cons a p)
  show ?case
  proof (cases "a = CHR 0x0A")
    case True
    with Cons show ?thesis by simp
  next
    case False
    obtain l ls where pl: "split_lines p = l # ls"
      by (cases "split_lines p") (use split_lines_not_Nil [of p] in auto)
    with False Cons show ?thesis
      by (cases ls) (auto split: list.splits)
  qed
qed

lemma last_split_lines: "p = [] \<or> last p = CHR 0x0A \<Longrightarrow> last (split_lines p) = []"
proof (cases p rule: rev_cases)
  case Nil
  then show ?thesis by simp
next
  case (snoc u a)
  assume "p = [] \<or> last p = CHR 0x0A"
  with snoc have "p = u @ CHR 0x0A # []" by simp
  then show ?thesis by (simp only: split_lines_newline) simp
qed

lemma hd_split_lines: "hd (split_lines s) = takeWhile (\<lambda>ch. ch \<noteq> CHR 0x0A) s"
  by (induction s) (auto split: list.splits)

lemma split_lines_skip:
  "filter (\<lambda>l. l \<noteq> []) (split_lines (dropWhile (\<lambda>ch. ch = CHR 0x0A) s))
     = filter (\<lambda>l. l \<noteq> []) (split_lines s)"
  by (induction s) simp_all

lemma split_lines_unfold:
  "split_lines t =
     takeWhile (\<lambda>ch. ch \<noteq> CHR 0x0A) t
       # (if dropWhile (\<lambda>ch. ch \<noteq> CHR 0x0A) t = [] then []
          else split_lines (drop 1 (dropWhile (\<lambda>ch. ch \<noteq> CHR 0x0A) t)))"
  by (induction t) auto

lemma strtok_r_None:
  assumes "strtok_r s = None"
  shows "filter (\<lambda>l. l \<noteq> []) (split_lines s) = []"
proof -
  define t where "t = dropWhile (\<lambda>ch. ch = CHR 0x0A) s"
  from assms have "t = []"
    by (simp add: strtok_r_def Let_def t_def split: if_splits)
  then have "filter (\<lambda>l. l \<noteq> []) (split_lines t) = []"
    by simp
  then show ?thesis
    unfolding t_def by (simp only: split_lines_skip)
qed

lemma strtok_r_Some:
  assumes "strtok_r s = Some (line, rest)"
  shows "filter (\<lambda>l. l \<noteq> []) (split_lines s) = line # filter (\<lambda>l. l \<noteq> []) (split_lines rest)
     \<and> line \<noteq> []"
proof -
  define t where "t = dropWhile (\<lambda>ch. ch = CHR 0x0A) s"
  from assms have ne: "t \<noteq> []"
    and line: "line = takeWhile (\<lambda>ch. ch \<noteq> CHR 0x0A) t"
    and rest: "rest = drop 1 (dropWhile (\<lambda>ch. ch \<noteq> CHR 0x0A) t)"
    by (simp_all add: strtok_r_def Let_def t_def split: if_splits)
  have "hd t \<noteq> CHR 0x0A"
    using ne hd_dropWhile [of "\<lambda>ch. ch = CHR 0x0A" s] by (simp add: t_def)
  with ne have lne: "line \<noteq> []"
    by (cases t) (simp_all add: line)
  define d where "d = dropWhile (\<lambda>ch. ch \<noteq> CHR 0x0A) t"
  have u: "split_lines t = line # (if d = [] then [] else split_lines rest)"
    unfolding line rest d_def by (rule split_lines_unfold)
  have rest': "rest = drop 1 d"
    by (simp only: rest d_def)
  have "filter (\<lambda>l. l \<noteq> []) (split_lines t) = line # filter (\<lambda>l. l \<noteq> []) (split_lines rest)"
  proof (cases "d = []")
    case True
    with rest' have "rest = []" by simp
    with True u lne show ?thesis by simp
  next
    case False
    with u lne show ?thesis by simp
  qed
  then show ?thesis
    using lne split_lines_skip [of s] by (simp add: t_def)
qed

declare parse_loop.simps [simp del]

lemma scan_lines_filter: "scan_lines c (filter (\<lambda>l. l \<noteq> []) ls) = scan_lines c ls"
  by (induction ls arbitrary: c) auto

lemma parse_loop_filtered:
  "parse_loop c s = scan_lines c (filter (\<lambda>l. l \<noteq> []) (split_lines s))"
proof (induction c s rule: parse_loop.induct)
  case (1 c str)
  show ?case
  proof (cases "strtok_r str")
    case None
    then show ?thesis using strtok_r_None [OF None] by (simp add: parse_loop.simps [of c str])
  next
    case (Some tok)
    obtain line rest where tok: "tok = (line, rest)" by (cases tok)
    note S = strtok_r_Some [OF Some [unfolded tok]]
    show ?thesis
    proof (cases "strchr line CHR '':''")
      case None
      then have "\<not> has_colon line" by (simp add: has_colon_def strchr_None_iff)
      with S Some tok None show ?thesis by (simp add: parse_loop.simps [of c str])
    next
      case (Some i)
      then have hc: "has_colon line"
        using strchr_None_iff [of line "CHR '':''"] by (auto simp: has_colon_def)
      have k: "take i line = key_of line"
        using strchr_Some_take [OF Some] by (simp add: key_of_def)
      have v: "dropWhile isspace (drop (Suc i) line) = value_of line"
        using strchr_Some_drop [OF Some] by (simp add: value_of_def)
      have "parse_loop c str = parse_loop (assign_rm c (key_of line) (value_of line)) rest"
        using \<open>strtok_r str = Some tok\<close> tok Some k v by (simp add: parse_loop.simps [of c str])
      also have "\<dots> = scan_lines (assign_rm c (key_of line) (value_of line))
           (filter (\<lambda>l. l \<noteq> []) (split_lines rest))"
        using "1.IH" [OF \<open>strtok_r str = Some tok\<close> tok [symmetric] Some] k v by simp
      finally show ?thesis using S hc by simp
    qed
  qed
qed

lemma parse_loop_scan: "parse_loop c s = scan_lines c (split_lines s)"
  by (simp add: parse_loop_filtered scan_lines_filter)

lemma parse_resource_manager_scan:
  "parse_resource_manager c (Some r) = scan_lines c (split_lines (rm_text r))"
  by (simp add: parse_resource_manager_def xcb_get_property_value_length_def
        xcb_get_property_value_def asprintf_prec_def rm_text_def parse_loop_scan Let_def)

lemma rm_text_append:
  "rm_text (a @ b) = (if CHR 0x00 \<in> set a then rm_text a else a @ rm_text b)"
  by (induction a) (auto simp: rm_text_def)

lemma rm_text_no_nul: "CHR 0x00 \<notin> set a \<Longrightarrow> rm_text a = a"
  by (induction a) (auto simp: rm_text_def)

lemma rm_text_Cons: "rm_text (a # s) = (if a = CHR 0x00 then [] else a # rm_text s)"
  by (simp add: rm_text_def)

lemma scan_lines_abort:
  "\<not> has_colon f \<Longrightarrow> (f = [] \<longrightarrow> ls = []) \<Longrightarrow> scan_lines c (xs @ f # ls) = scan_lines c xs"
  by (induction xs arbitrary: c) auto

lemma scan_lines_butlast:
  assumes "last (split_lines p) = []"
  shows "scan_lines c (butlast (split_lines p)) = scan_lines c (split_lines p)"
proof -
  have "split_lines p = butlast (split_lines p) @ [[]]"
    using assms append_butlast_last_id [OF split_lines_not_Nil [of p]] by simp
  then have "scan_lines c (split_lines p) = scan_lines c (butlast (split_lines p) @ [] # [])"
    by simp
  also have "\<dots> = scan_lines c (butlast (split_lines p))"
    by (rule scan_lines_abort) (simp_all add: has_colon_def)
  finally show ?thesis by simp
qed

lemma split_lines_after_boundary:
  assumes "p = [] \<or> last p = CHR 0x0A"
  shows "split_lines (p @ t) = butlast (split_lines p) @ split_lines t"
proof -
  have "hd (split_lines t) # tl (split_lines t) = split_lines t"
    using split_lines_not_Nil [of t] by simp
  then show ?thesis
    using split_lines_append [of p t] last_split_lines [OF assms] by simp
qed

lemma rm_text_line:
  assumes bad: "bad \<noteq> []" "CHR 0x0A \<notin> set bad" and q: "q = [] \<or> hd q = CHR 0x0A"
  shows "\<exists>t'. rm_text (bad @ q) = rm_text bad @ t' \<and> (t' = [] \<or> hd t' = CHR 0x0A)
           \<and> (rm_text bad = [] \<longrightarrow> t' = [])"
proof (cases "CHR 0x00 \<in> set bad")
  case True
  then have "rm_text (bad @ q) = rm_text bad @ []"
    by (simp add: rm_text_append)
  then show ?thesis by blast
next
  case False
  then have fb: "rm_text bad = bad" by (rule rm_text_no_nul)
  have a: "rm_text q = [] \<or> hd (rm_text q) = CHR 0x0A"
  proof (cases q)
    case Nil
    then show ?thesis by (simp add: rm_text_def)
  next
    case (Cons x u)
    with q have "x = CHR 0x0A" by simp
    with Cons show ?thesis by (simp add: rm_text_def)
  qed
  have b: "rm_text (bad @ q) = rm_text bad @ rm_text q"
    using False fb by (simp add: rm_text_append)
  have c: "rm_text bad = [] \<longrightarrow> rm_text q = []"
    using fb bad(1) by simp
  from a b c show ?thesis by blast
qed

lemma set_rm_text: "set (rm_text s) \<subseteq> set s"
  by (induction s) (auto simp: rm_text_def)

lemma abort_at_line_without_colon:
  assumes p: "p = [] \<or> last p = CHR 0x0A"
    and bad: "bad \<noteq> []" "CHR '':'' \<notin> set bad" "CHR 0x0A \<notin> set bad"
    and q: "q = [] \<or> hd q = CHR 0x0A"
  shows "parse_resource_manager c (Some (p @ bad @ q)) = parse_resource_manager c (Some p)"
proof (cases "CHR 0x00 \<in> set p")
  case True
  then show ?thesis
    by (simp add: parse_resource_manager_scan rm_text_append)
next
  case False
  define f where "f = rm_text bad"
  have f_sub: "set f \<subseteq> set bad"
    unfolding f_def by (rule set_rm_text)
  have f_colon: "\<not> has_colon f"
    using f_sub bad(2) by (auto simp: has_colon_def)
  have f_nl: "CHR 0x0A \<notin> set f"
    using f_sub bad(3) by auto
  from rm_text_line [OF bad(1) bad(3) q]
  obtain t' where t: "rm_text (bad @ q) = f @ t'" and t': "t' = [] \<or> hd t' = CHR 0x0A"
    and ft: "f = [] \<longrightarrow> t' = []"
    unfolding f_def by blast
  have sl: "split_lines (f @ t') = f # tl (split_lines t')"
  proof (cases t')
    case Nil
    then show ?thesis using split_lines_single [OF f_nl] by simp
  next
    case (Cons a u)
    with t' have "t' = CHR 0x0A # u" by simp
    then show ?thesis using split_lines_line [OF f_nl, of u] by simp
  qed
  have tl: "f = [] \<longrightarrow> tl (split_lines t') = []"
    using ft by auto
  have e1: "rm_text (p @ bad @ q) = p @ f @ t'"
    using False t by (simp add: rm_text_append)
  have "parse_resource_manager c (Some (p @ bad @ q))
      = scan_lines c (split_lines (p @ f @ t'))"
    by (simp only: parse_resource_manager_scan e1)
  also have "\<dots> = scan_lines c (butlast (split_lines p) @ f # tl (split_lines t'))"
    by (simp only: split_lines_after_boundary [OF p] sl)
  also have "\<dots> = scan_lines c (butlast (split_lines p))"
    by (rule scan_lines_abort [OF f_colon tl])
  also have "\<dots> = scan_lines c (split_lines p)"
    by (rule scan_lines_butlast [OF last_split_lines [OF p]])
  also have "\<dots> = parse_resource_manager c (Some p)"
    by (simp only: parse_resource_manager_scan rm_text_no_nul [OF False])
  finally show ?thesis .
qed








lemma rm_scan_lines:
  "rm (scan_lines c ls) k =
     (case filter (\<lambda>l. key_of l = rm_name k) (takeWhile has_colon (filter (\<lambda>l. l \<noteq> []) ls)) of
        [] \<Rightarrow> rm c k
      | x # xs \<Rightarrow> Some (value_of (last (x # xs))))"
proof (induction ls arbitrary: c)
  case Nil
  show ?case by simp
next
  case (Cons l ls)
  show ?case
  proof (cases "l = []")
    case True
    with Cons show ?thesis by simp
  next
    case ne: False
    show ?thesis
    proof (cases "has_colon l")
      case False
      with ne show ?thesis by simp
    next
      case True
      let ?F = "filter (\<lambda>l. key_of l = rm_name k) (takeWhile has_colon (filter (\<lambda>l. l \<noteq> []) ls))"
      have "rm (scan_lines c (l # ls)) k = rm (scan_lines (assign_rm c (key_of l) (value_of l)) ls) k"
        using ne True by simp
      also have "\<dots> = (case ?F of [] \<Rightarrow> rm (assign_rm c (key_of l) (value_of l)) k
                         | x # xs \<Rightarrow> Some (value_of (last (x # xs))))"
        by (rule Cons.IH)
      finally show ?thesis
        using ne True by (cases ?F) (simp_all add: assign_rm_rm)
    qed
  qed
qed

lemma last_value_wins:
  "rm (parse_resource_manager c (Some r)) k =
     (case filter (\<lambda>l. key_of l = rm_name k) (scanned_lines r) of
        [] \<Rightarrow> rm c k
      | x # xs \<Rightarrow> Some (value_of (last (x # xs))))"
  by (simp only: parse_resource_manager_scan rm_scan_lines scanned_lines_def)

lemma scanned_lines_all:
  assumes "CHR 0x00 \<notin> set r" and "\<forall>l\<in>set (split_lines r). l = [] \<or> has_colon l"
  shows "scanned_lines r = filter (\<lambda>l. l \<noteq> []) (split_lines r)"
proof -
  have "\<forall>l\<in>set (filter (\<lambda>l. l \<noteq> []) (split_lines r)). has_colon l"
    using assms(2) by auto
  then have "takeWhile has_colon (filter (\<lambda>l. l \<noteq> []) (split_lines r))
      = filter (\<lambda>l. l \<noteq> []) (split_lines r)"
    by (simp only: takeWhile_eq_all_conv)
  then show ?thesis
    by (simp only: scanned_lines_def rm_text_no_nul [OF assms(1)])
qed

lemma same_lines_same_table:
  assumes "filter (\<lambda>l. l \<noteq> []) (split_lines (rm_text r)) = filter (\<lambda>l. l \<noteq> []) (split_lines (rm_text r'))"
  shows "parse_resource_manager c (Some r) = parse_resource_manager c (Some r')"
proof -
  have "parse_resource_manager c (Some r) = scan_lines c (filter (\<lambda>l. l \<noteq> []) (split_lines (rm_text r)))"
    by (simp only: parse_resource_manager_scan scan_lines_filter)
  also have "\<dots> = scan_lines c (filter (\<lambda>l. l \<noteq> []) (split_lines (rm_text r')))"
    by (simp only: assms)
  also have "\<dots> = parse_resource_manager c (Some r')"
    by (simp only: parse_resource_manager_scan scan_lines_filter)
  finally show ?thesis .
qed

lemma filter_butlast_empty:
  assumes "last xs = []" "xs \<noteq> []"
  shows "filter (\<lambda>l. l \<noteq> []) (butlast xs) = filter (\<lambda>l. l \<noteq> []) xs"
proof -
  have "xs = butlast xs @ [[]]"
    using assms append_butlast_last_id [of xs] by simp
  then have "filter (\<lambda>l. l \<noteq> []) xs = filter (\<lambda>l. l \<noteq> []) (butlast xs @ [[]])"
    by simp
  then show ?thesis by simp
qed

lemma filter_tl_empty:
  assumes "hd xs = []" "xs \<noteq> []"
  shows "filter (\<lambda>l. l \<noteq> []) (tl xs) = filter (\<lambda>l. l \<noteq> []) xs"
  using assms by (cases xs) simp_all

lemma empty_line_inserted:
  assumes "p = [] \<or> last p = CHR 0x0A \<or> q = [] \<or> hd q = CHR 0x0A"
  shows "parse_resource_manager c (Some (p @ CHR 0x0A # q)) = parse_resource_manager c (Some (p @ q))"
proof (cases "CHR 0x00 \<in> set p")
  case True
  then show ?thesis
    by (simp add: parse_resource_manager_scan rm_text_append)
next
  case False
  define t where "t = rm_text q"
  have e1: "rm_text (p @ CHR 0x0A # q) = p @ CHR 0x0A # t"
    using False by (simp add: rm_text_append t_def rm_text_Cons)
  have e2: "rm_text (p @ q) = p @ t"
    using False by (simp add: rm_text_append t_def)
  have "filter (\<lambda>l. l \<noteq> []) (split_lines (p @ CHR 0x0A # t))
      = filter (\<lambda>l. l \<noteq> []) (split_lines (p @ t))"
  proof (cases "p = [] \<or> last p = CHR 0x0A")
    case True
    have "filter (\<lambda>l. l \<noteq> []) (split_lines (p @ t))
        = filter (\<lambda>l. l \<noteq> []) (butlast (split_lines p)) @ filter (\<lambda>l. l \<noteq> []) (split_lines t)"
      by (simp only: split_lines_after_boundary [OF True] filter_append)
    also have "\<dots> = filter (\<lambda>l. l \<noteq> []) (split_lines p) @ filter (\<lambda>l. l \<noteq> []) (split_lines t)"
      by (simp only: filter_butlast_empty [OF last_split_lines [OF True] split_lines_not_Nil])
    finally show ?thesis
      by (simp only: split_lines_newline filter_append)
  next
    case no: False
    with assms have "q = [] \<or> hd q = CHR 0x0A" by blast
    then have "t = [] \<or> hd t = CHR 0x0A"
      by (cases q) (auto simp: t_def rm_text_def)
    then have h: "hd (split_lines t) = []"
      by (cases t) (simp_all add: hd_split_lines)
    have c: "hd (split_lines t) # tl (split_lines t) = split_lines t"
      using split_lines_not_Nil [of t] by simp
    have "split_lines (p @ t) = butlast (split_lines p) @ last (split_lines p) # tl (split_lines t)"
      using split_lines_append [of p t] h by simp
    also have "\<dots> = split_lines p @ tl (split_lines t)"
      using append_butlast_last_id [OF split_lines_not_Nil [of p]] by (metis append.assoc append_Cons append_Nil)
    finally have "filter (\<lambda>l. l \<noteq> []) (split_lines (p @ t))
        = filter (\<lambda>l. l \<noteq> []) (split_lines p) @ filter (\<lambda>l. l \<noteq> []) (tl (split_lines t))"
      by simp
    also have "\<dots> = filter (\<lambda>l. l \<noteq> []) (split_lines p) @ filter (\<lambda>l. l \<noteq> []) (split_lines t)"
      by (simp only: filter_tl_empty [OF h split_lines_not_Nil])
    finally show ?thesis
      by (simp only: split_lines_newline filter_append)
  qed
  then show ?thesis
    by (intro same_lines_same_table) (simp only: e1 e2)
qed

lemma split_lines_at_abort:
  assumes p: "p = [] \<or> last p = CHR 0x0A"
    and bad: "bad \<noteq> []" "CHR '':'' \<notin> set bad" "CHR 0x0A \<notin> set bad"
    and q: "q = [] \<or> hd q = CHR 0x0A"
    and nul: "CHR 0x00 \<notin> set p"
  shows "\<exists>f ls. split_lines (rm_text (p @ bad @ q)) = butlast (split_lines p) @ f # ls
           \<and> \<not> has_colon f \<and> (f = [] \<longrightarrow> ls = [])"
proof -
  define f where "f = rm_text bad"
  have f_sub: "set f \<subseteq> set bad"
    unfolding f_def by (rule set_rm_text)
  have f_colon: "\<not> has_colon f"
    using f_sub bad(2) by (auto simp: has_colon_def)
  have f_nl: "CHR 0x0A \<notin> set f"
    using f_sub bad(3) by auto
  from rm_text_line [OF bad(1) bad(3) q]
  obtain t' where t: "rm_text (bad @ q) = f @ t'" and t': "t' = [] \<or> hd t' = CHR 0x0A"
    and ft: "f = [] \<longrightarrow> t' = []"
    unfolding f_def by blast
  have sl: "split_lines (f @ t') = f # tl (split_lines t')"
  proof (cases t')
    case Nil
    then show ?thesis using split_lines_single [OF f_nl] by simp
  next
    case (Cons a u)
    with t' have "t' = CHR 0x0A # u" by simp
    then show ?thesis using split_lines_line [OF f_nl, of u] by simp
  qed
  have tl: "f = [] \<longrightarrow> tl (split_lines t') = []"
    using ft by auto
  have e1: "rm_text (p @ bad @ q) = p @ f @ t'"
    using nul t by (simp add: rm_text_append)
  have "split_lines (rm_text (p @ bad @ q)) = butlast (split_lines p) @ f # tl (split_lines t')"
    by (simp only: e1 split_lines_after_boundary [OF p] sl)
  with f_colon tl show ?thesis by blast
qed

lemma takeWhile_filter_abort:
  assumes "\<not> has_colon f" and "f = [] \<longrightarrow> ls = []"
  shows "takeWhile has_colon (filter (\<lambda>l. l \<noteq> []) (xs @ f # ls))
       = takeWhile has_colon (filter (\<lambda>l. l \<noteq> []) xs)"
proof (cases "f = []")
  case True
  with assms(2) show ?thesis by simp
next
  case False
  then have "filter (\<lambda>l. l \<noteq> []) (xs @ f # ls)
      = filter (\<lambda>l. l \<noteq> []) xs @ f # filter (\<lambda>l. l \<noteq> []) ls"
    by simp
  then show ?thesis
    using takeWhile_tail [of has_colon f "filter (\<lambda>l. l \<noteq> []) xs" "filter (\<lambda>l. l \<noteq> []) ls"] assms(1)
    by simp
qed

lemma scanned_lines_abort:
  assumes p: "p = [] \<or> last p = CHR 0x0A"
    and bad: "bad \<noteq> []" "CHR '':'' \<notin> set bad" "CHR 0x0A \<notin> set bad"
    and q: "q = [] \<or> hd q = CHR 0x0A"
  shows "scanned_lines (p @ bad @ q) = scanned_lines p"
proof (cases "CHR 0x00 \<in> set p")
  case True
  then show ?thesis
    by (simp add: scanned_lines_def rm_text_append)
next
  case False
  from split_lines_at_abort [OF p bad q False]
  obtain f ls where s: "split_lines (rm_text (p @ bad @ q)) = butlast (split_lines p) @ f # ls"
    and f: "\<not> has_colon f" and fl: "f = [] \<longrightarrow> ls = []"
    by blast
  have "scanned_lines (p @ bad @ q)
      = takeWhile has_colon (filter (\<lambda>l. l \<noteq> []) (butlast (split_lines p) @ f # ls))"
    by (simp only: scanned_lines_def s)
  also have "\<dots> = takeWhile has_colon (filter (\<lambda>l. l \<noteq> []) (butlast (split_lines p)))"
    by (rule takeWhile_filter_abort [OF f fl])
  also have "\<dots> = takeWhile has_colon (filter (\<lambda>l. l \<noteq> []) (split_lines p))"
    by (simp only: filter_butlast_empty [OF last_split_lines [OF p] split_lines_not_Nil])
  also have "\<dots> = scanned_lines p"
    by (simp only: scanned_lines_def rm_text_no_nul [OF False])
  finally show ?thesis .
qed

section \<open>Integer conversions in get_default_size\<close>

lemma atoi_range: "- (2 ^ 31) \<le> atoi v \<and> atoi v < 2 ^ 31"
  unfolding atoi_def c_int_def
  using signed_take_bit_int_greater_eq_minus_exp [of 31 "strtol v"]
    signed_take_bit_int_less_exp [of 31 "strtol v"] by simp

lemma uint_of_c_int:
  assumes "- (2 ^ 31) \<le> k" "k < 2 ^ 31"
  shows "uint (word_of_int k :: 32 word) = (if 0 \<le> k then k else k + 2 ^ 32)"
proof -
  have "uint (word_of_int k :: 32 word) = k mod 2 ^ 32"
    by (simp add: uint_word_of_int take_bit_eq_mod)
  also have "\<dots> = (if 0 \<le> k then k else k + 2 ^ 32)"
  proof (cases "0 \<le> k")
    case True
    with assms have "k mod 2 ^ 32 = k" by (intro mod_pos_pos_trivial) simp_all
    with True show ?thesis by simp
  next
    case False
    with assms have "(k + 2 ^ 32) mod 2 ^ 32 = k + 2 ^ 32"
      by (intro mod_pos_pos_trivial) simp_all
    with False show ?thesis by simp
  qed
  finally show ?thesis .
qed

lemma uint_atoi:
  "uint (word_of_int (atoi v) :: 32 word) = (if 0 \<le> atoi v then atoi v else atoi v + 2 ^ 32)"
  using atoi_range [of v] by (intro uint_of_c_int) simp_all

lemma get_default_size_env:
  "getenv env ''XCURSOR_SIZE'' = Some v \<Longrightarrow> get_default_size env c screen = word_of_int (atoi v)"
  by (simp add: get_default_size_def)

lemma getenv_upd: "getenv (env(name \<mapsto> v)) name = Some v"
  by (simp add: getenv_def)

lemma strtol_digits_none: "\<forall>ch\<in>set s. \<not> isdigit ch \<Longrightarrow> strtol_digits acc s = acc"
  by (cases s) simp_all

lemma atoi_no_digit:
  assumes "\<forall>ch\<in>set v. \<not> isdigit ch"
  shows "atoi v = 0"
proof -
  define s where "s = dropWhile isspace v"
  have sub: "set s \<subseteq> set v"
    unfolding s_def by (meson set_dropWhileD subsetI)
  have "strtol v = 0"
  proof (cases s)
    case Nil
    then show ?thesis by (simp add: strtol_def s_def [symmetric])
  next
    case (Cons ch r)
    from sub assms have d: "\<forall>x\<in>set s. \<not> isdigit x" by blast
    with Cons have "\<forall>x\<in>set r. \<not> isdigit x" by simp
    then have "strtol_digits 0 r = 0" "strtol_digits 0 s = 0"
      using d by (simp_all add: strtol_digits_none)
    with Cons show ?thesis
      by (simp add: strtol_def s_def [symmetric] LONG_MIN_def LONG_MAX_def)
  qed
  then show ?thesis by (simp add: atoi_def c_int_def)
qed

lemma strtol_digits_stop:
  "\<forall>ch\<in>set ds. isdigit ch \<Longrightarrow> rest = [] \<or> \<not> isdigit (hd rest)
     \<Longrightarrow> strtol_digits acc (ds @ rest) = strtol_digits acc ds"
proof (induction ds arbitrary: acc)
  case Nil
  then show ?case by (cases rest) simp_all
next
  case (Cons a ds)
  then show ?case by simp
qed

lemma isdigit_not_space: "isdigit ch \<Longrightarrow> \<not> isspace ch"
  by (auto simp: isdigit_def isspace_def)

lemma isdigit_not_sign: "isdigit ch \<Longrightarrow> ch \<noteq> CHR ''-'' \<and> ch \<noteq> CHR ''+''"
  by (auto simp: isdigit_def)

lemma atoi_stops_at_non_digit:
  assumes ds: "ds \<noteq> []" "\<forall>ch\<in>set ds. isdigit ch" and rest: "rest = [] \<or> \<not> isdigit (hd rest)"
  shows "atoi (ds @ rest) = atoi ds"
proof -
  obtain a u where au: "ds = a # u" using ds(1) by (cases ds) auto
  with ds(2) have a: "isdigit a" by simp
  have s1: "dropWhile isspace (ds @ rest) = ds @ rest"
    using au a isdigit_not_space by simp
  have s2: "dropWhile isspace ds = ds"
    using au a isdigit_not_space by simp
  have "strtol (ds @ rest) = min LONG_MAX (strtol_digits 0 (ds @ rest))"
    unfolding strtol_def s1 using au isdigit_not_sign [OF a] by simp
  also have "\<dots> = min LONG_MAX (strtol_digits 0 ds)"
    by (simp only: strtol_digits_stop [OF ds(2) rest])
  also have "\<dots> = strtol ds"
    unfolding strtol_def s2 using au isdigit_not_sign [OF a] by simp
  finally show ?thesis by (simp add: atoi_def)
qed

lemma atoi_examples:
  "atoi ''40'' = 40" "atoi ''40px'' = 40" "atoi ''px'' = 0" "atoi [] = 0" "atoi ''-5'' = - 5"
  "atoi ''  +7 '' = 7" "atoi ''24'' = 24" "atoi ''96'' = 96" "atoi ''0'' = 0"
  "atoi ''300000000'' = 300000000" "atoi ''-1'' = - 1" "atoi ''-24'' = - 24"
  by (simp_all add: atoi_def strtol_def isspace_def isdigit_def c_int_def LONG_MIN_def LONG_MAX_def)

lemma by_screen_value:
  "uint (word_of_int (uint (dim :: 16 word) sdiv 48) :: 32 word) = uint dim div 48"
proof -
  have b: "0 \<le> uint dim" "uint dim < 2 ^ 16"
    using uint_bounded [of dim] by simp_all
  then have "uint dim sdiv 48 = uint dim div 48"
    by (simp add: signed_divide_int_def sgn_if)
  moreover have "0 \<le> uint dim div 48" "uint dim div 48 < 2 ^ 32"
    using b by (simp_all add: pos_imp_zdiv_nonneg_iff)
  ultimately show ?thesis
    by (simp add: uint_word_of_int take_bit_eq_mod)
qed

lemma dim_min:
  "uint (if (h :: 16 word) < w then h else w) = min (uint w) (uint h)"
  by (simp add: word_less_def min_def)

lemma dpi_value:
  assumes "0 < dpi" "dpi < 2 ^ 27"
  shows "uint (word_of_int (c_int (dpi * 16) sdiv 72) :: 32 word) = dpi * 16 div 72"
proof -
  have r: "- (2 ^ 31) \<le> dpi * 16" "dpi * 16 < 2 ^ 31"
    using assms by simp_all
  then have "c_int (dpi * 16) = dpi * 16"
    unfolding c_int_def by (intro signed_take_bit_int_eq_self) simp_all
  moreover have "dpi * 16 sdiv 72 = dpi * 16 div 72"
    using assms by (simp add: signed_divide_int_def sgn_if)
  moreover have "0 \<le> dpi * 16 div 72" "dpi * 16 div 72 < 2 ^ 32"
    using assms by (simp_all add: pos_imp_zdiv_nonneg_iff)
  ultimately show ?thesis
    by (simp add: uint_word_of_int take_bit_eq_mod)
qed

section \<open>The claims\<close>

text \<open>
  C7. Parsing an absent reply and parsing a reply of length zero both return, without
  any error, the context they were given; on the fresh context of
  \<open>xcb_cursor_context_new\<close> all three keys are then unset. An unset key (\<open>None\<close>) is
  distinct from a key whose value is the empty string (\<open>Some []\<close>), which the blob
  \<open>"Xcursor.theme:"\<close> produces.
\<close>

theorem C7_absent_or_empty_blob:
  "parse_resource_manager c None = c
   \<and> parse_resource_manager c (Some []) = c
   \<and> calloc_context = Some zero_context
   \<and> rm (parse_resource_manager zero_context None) k = None
   \<and> rm (parse_resource_manager zero_context (Some [])) k = None
   \<and> (\<exists>c'. xcb_cursor_context_new env screen None pf = Inr c' \<and> rm c' k = None)
   \<and> (\<exists>c'. xcb_cursor_context_new env screen (Some []) pf = Inr c' \<and> rm c' k = None)
   \<and> rm (parse_resource_manager zero_context (Some ''Xcursor.theme:'')) RM_XCURSOR_THEME = Some []
   \<and> rm (parse_resource_manager zero_context (Some ''Xcursor.theme:'')) RM_XCURSOR_THEME
         \<noteq> rm (parse_resource_manager zero_context (Some [])) RM_XCURSOR_THEME"
proof -
  have a: "parse_resource_manager c None = c" for c
    by (simp add: parse_resource_manager_def)
  have b: "parse_resource_manager c (Some []) = c" for c
    by (simp add: parse_resource_manager_def xcb_get_property_value_length_def)
  have z: "rm zero_context k = None" for k
    by (simp add: zero_context_def)
  have e: "rm (parse_resource_manager zero_context (Some ''Xcursor.theme:'')) RM_XCURSOR_THEME = Some []"
    by code_simp
  have n1: "\<exists>c'. xcb_cursor_context_new env screen None pf = Inr c' \<and> rm c' k = None"
    by (simp add: xcb_cursor_context_new_def calloc_context_def a z Let_def)
  have n2: "\<exists>c'. xcb_cursor_context_new env screen (Some []) pf = Inr c' \<and> rm c' k = None"
    by (simp add: xcb_cursor_context_new_def calloc_context_def b z Let_def)
  show ?thesis
    using n1 n2 by (simp add: a b z e calloc_context_def)
qed

theorem C7_witness:
  "parse_resource_manager zero_context None = zero_context
   \<and> parse_resource_manager zero_context (Some []) = zero_context
   \<and> rm (parse_resource_manager zero_context None) RM_XFT_DPI = None
   \<and> rm (parse_resource_manager zero_context (Some [])) RM_XCURSOR_SIZE = None"
  using C7_absent_or_empty_blob [of zero_context RM_XFT_DPI no_environ "screen_of 0 0" None]
    C7_absent_or_empty_blob [of zero_context RM_XCURSOR_SIZE no_environ "screen_of 0 0" None]
  by blast

text \<open>
  C3. A blob in which a non-empty line \<open>bad\<close> without a colon stands between the lines
  \<open>p\<close> in front of it and the rest \<open>q\<close> behind it gives the table that the lines in front
  alone give: the scan stops at \<open>bad\<close>, and neither \<open>bad\<close> nor any later line contributes.
  The lines that the scan reaches are those it reaches in \<open>p\<close>, which are all the non-empty
  lines of \<open>p\<close> when each of them has a colon, and every key holds the value of its last
  line among them, or what the context held before when it has none.
  For the blob \<open>"Xcursor.theme: Foo\nbadline\nXcursor.size: 32\n"\<close> the theme is
  \<open>"Foo"\<close> and the size is unset; for
  \<open>"Xcursor.theme: Foo\nXcursor.size: 32\nbadline\nXft.dpi: 96\n"\<close> the theme is
  \<open>"Foo"\<close>, the size is \<open>"32"\<close> and \<open>Xft.dpi\<close> is unset.
\<close>

theorem C3_abort_at_line_without_colon:
  assumes "p = [] \<or> last p = CHR 0x0A"
    and "bad \<noteq> []" and "CHR '':'' \<notin> set bad" and "CHR 0x0A \<notin> set bad"
    and "q = [] \<or> hd q = CHR 0x0A"
  shows "parse_resource_manager c (Some (p @ bad @ q)) = parse_resource_manager c (Some p)
    \<and> scanned_lines (p @ bad @ q) = scanned_lines p
    \<and> rm (parse_resource_manager c (Some (p @ bad @ q))) k =
         (case filter (\<lambda>l. key_of l = rm_name k) (scanned_lines p) of
            [] \<Rightarrow> rm c k
          | x # xs \<Rightarrow> Some (value_of (last (x # xs))))
    \<and> (CHR 0x00 \<notin> set p \<and> (\<forall>l\<in>set (split_lines p). l = [] \<or> has_colon l) \<longrightarrow>
          scanned_lines (p @ bad @ q) = filter (\<lambda>l. l \<noteq> []) (split_lines p))
    \<and> rm (parse_resource_manager zero_context
         (Some ''Xcursor.theme: Foo\<newline>badline\<newline>Xcursor.size: 32\<newline>'')) RM_XCURSOR_THEME = Some ''Foo''
    \<and> rm (parse_resource_manager zero_context
         (Some ''Xcursor.theme: Foo\<newline>badline\<newline>Xcursor.size: 32\<newline>'')) RM_XCURSOR_SIZE = None
    \<and> map (rm (parse_resource_manager zero_context
               (Some ''Xcursor.theme: Foo\<newline>Xcursor.size: 32\<newline>badline\<newline>Xft.dpi: 96\<newline>'')))
          [RM_XCURSOR_THEME, RM_XCURSOR_SIZE, RM_XFT_DPI] = [Some ''Foo'', Some ''32'', None]"
proof -
  have ex1: "rm (parse_resource_manager zero_context
         (Some ''Xcursor.theme: Foo\<newline>badline\<newline>Xcursor.size: 32\<newline>'')) RM_XCURSOR_THEME = Some ''Foo''"
    by code_simp
  have ex2: "rm (parse_resource_manager zero_context
         (Some ''Xcursor.theme: Foo\<newline>badline\<newline>Xcursor.size: 32\<newline>'')) RM_XCURSOR_SIZE = None"
    by code_simp
  have ex3: "map (rm (parse_resource_manager zero_context
               (Some ''Xcursor.theme: Foo\<newline>Xcursor.size: 32\<newline>badline\<newline>Xft.dpi: 96\<newline>'')))
          [RM_XCURSOR_THEME, RM_XCURSOR_SIZE, RM_XFT_DPI] = [Some ''Foo'', Some ''32'', None]"
    by code_simp
  note sc = scanned_lines_abort [OF assms]
  have tb: "rm (parse_resource_manager c (Some (p @ bad @ q))) k =
         (case filter (\<lambda>l. key_of l = rm_name k) (scanned_lines p) of
            [] \<Rightarrow> rm c k
          | x # xs \<Rightarrow> Some (value_of (last (x # xs))))"
    using last_value_wins [of c "p @ bad @ q" k] by (simp only: sc)
  have al: "scanned_lines (p @ bad @ q) = filter (\<lambda>l. l \<noteq> []) (split_lines p)"
    if "CHR 0x00 \<notin> set p \<and> (\<forall>l\<in>set (split_lines p). l = [] \<or> has_colon l)"
  proof -
    from that have "scanned_lines p = filter (\<lambda>l. l \<noteq> []) (split_lines p)"
      by (intro scanned_lines_all) blast+
    then show ?thesis by (simp only: sc)
  qed
  show ?thesis
    using abort_at_line_without_colon [OF assms, of c] sc tb al ex1 ex2 ex3 by (intro conjI impI)
qed

theorem C3_witness:
  "(''Xcursor.theme: Foo\<newline>Xcursor.size: 32\<newline>'' = []
      \<or> last ''Xcursor.theme: Foo\<newline>Xcursor.size: 32\<newline>'' = CHR 0x0A)
   \<and> ''no colon here'' \<noteq> [] \<and> CHR '':'' \<notin> set ''no colon here''
   \<and> CHR 0x0A \<notin> set ''no colon here''
   \<and> (''\<newline>Xft.dpi: 192'' = [] \<or> hd ''\<newline>Xft.dpi: 192'' = CHR 0x0A)
   \<and> CHR 0x00 \<notin> set ''Xcursor.theme: Foo\<newline>Xcursor.size: 32\<newline>''
   \<and> list_all (\<lambda>l. l = [] \<or> has_colon l) (split_lines ''Xcursor.theme: Foo\<newline>Xcursor.size: 32\<newline>'')
   \<and> parse_resource_manager zero_context
        (Some (''Xcursor.theme: Foo\<newline>Xcursor.size: 32\<newline>'' @ ''no colon here'' @ ''\<newline>Xft.dpi: 192''))
      = parse_resource_manager zero_context (Some ''Xcursor.theme: Foo\<newline>Xcursor.size: 32\<newline>'')
   \<and> scanned_lines (''Xcursor.theme: Foo\<newline>Xcursor.size: 32\<newline>'' @ ''no colon here'' @ ''\<newline>Xft.dpi: 192'')
      = [''Xcursor.theme: Foo'', ''Xcursor.size: 32'']
   \<and> rm (parse_resource_manager zero_context
          (Some (''Xcursor.theme: Foo\<newline>Xcursor.size: 32\<newline>'' @ ''no colon here'' @ ''\<newline>Xft.dpi: 192'')))
        RM_XCURSOR_THEME = Some ''Foo''
   \<and> rm (parse_resource_manager zero_context
          (Some (''Xcursor.theme: Foo\<newline>Xcursor.size: 32\<newline>'' @ ''no colon here'' @ ''\<newline>Xft.dpi: 192'')))
        RM_XCURSOR_SIZE = Some ''32''
   \<and> rm (parse_resource_manager zero_context
          (Some (''Xcursor.theme: Foo\<newline>Xcursor.size: 32\<newline>'' @ ''no colon here'' @ ''\<newline>Xft.dpi: 192'')))
        RM_XFT_DPI = None"
proof -
  let ?p = "''Xcursor.theme: Foo\<newline>Xcursor.size: 32\<newline>''"
  let ?b = "''no colon here''"
  let ?q = "''\<newline>Xft.dpi: 192''"
  have h1: "?p = [] \<or> last ?p = CHR 0x0A" by simp
  have h2: "?b \<noteq> []" by simp
  have h3: "CHR '':'' \<notin> set ?b" by simp
  have h4: "CHR 0x0A \<notin> set ?b" by simp
  have h5: "?q = [] \<or> hd ?q = CHR 0x0A" by simp
  have h6: "CHR 0x00 \<notin> set ?p" by simp
  have sl: "split_lines ?p = [''Xcursor.theme: Foo'', ''Xcursor.size: 32'', []]"
    by simp
  have h7: "\<forall>l\<in>set (split_lines ?p). l = [] \<or> has_colon l"
    by (simp only: sl) (simp add: has_colon_def)
  note T = C3_abort_at_line_without_colon [OF h1 h2 h3 h4 h5, of zero_context]
  have e: "parse_resource_manager zero_context (Some (?p @ ?b @ ?q))
      = parse_resource_manager zero_context (Some ?p)"
    using T [of RM_XCURSOR_THEME] by blast
  have "scanned_lines (?p @ ?b @ ?q) = filter (\<lambda>l. l \<noteq> []) (split_lines ?p)"
    using T [of RM_XCURSOR_THEME] h6 h7 by blast
  then have s: "scanned_lines (?p @ ?b @ ?q) = [''Xcursor.theme: Foo'', ''Xcursor.size: 32'']"
    by (simp only: sl) simp
  have sp: "scanned_lines ?p = [''Xcursor.theme: Foo'', ''Xcursor.size: 32'']"
    using T [of RM_XCURSOR_THEME] s by metis
  have k: "key_of ''Xcursor.theme: Foo'' = ''Xcursor.theme''"
    "key_of ''Xcursor.size: 32'' = ''Xcursor.size''"
    by (simp_all add: key_of_def)
  have v: "value_of ''Xcursor.theme: Foo'' = ''Foo''" "value_of ''Xcursor.size: 32'' = ''32''"
    by (simp_all add: value_of_def isspace_def)
  have z: "rm zero_context RM_XFT_DPI = None"
    by (simp add: zero_context_def)
  have tb: "rm (parse_resource_manager zero_context (Some (?p @ ?b @ ?q))) K =
         (case filter (\<lambda>l. key_of l = rm_name K) (scanned_lines ?p) of
            [] \<Rightarrow> rm zero_context K
          | x # xs \<Rightarrow> Some (value_of (last (x # xs))))" for K
    using T [of K] by blast
  have r1: "rm (parse_resource_manager zero_context (Some (?p @ ?b @ ?q))) RM_XCURSOR_THEME = Some ''Foo''"
    by (simp only: tb sp) (simp add: k v)
  have r2: "rm (parse_resource_manager zero_context (Some (?p @ ?b @ ?q))) RM_XCURSOR_SIZE = Some ''32''"
    by (simp only: tb sp) (simp add: k v)
  have r3: "rm (parse_resource_manager zero_context (Some (?p @ ?b @ ?q))) RM_XFT_DPI = None"
    by (simp only: tb sp) (simp add: k v z)
  from h1 h2 h3 h4 h5 h6 h7 e s r1 r2 r3 show ?thesis
    by (simp only: list_all_iff) blast
qed



text \<open>
  C6. The table is a function from the three keys to an optional string, so a key has at
  most one value. That value is the value of the last line for the key among the lines
  that the scan reaches (the non-empty lines in front of the first line without a colon);
  a key with no such line keeps what the context held before. In a blob without NUL whose
  non-empty lines all have a colon the scan reaches every non-empty line. For the blob
  \<open>"Xft.dpi: 96\nXft.dpi: 192\n"\<close> the resulting \<open>Xft.dpi\<close> is \<open>"192"\<close>.
\<close>

theorem C6_last_value_wins:
  "rm (parse_resource_manager c (Some r)) k =
     (case filter (\<lambda>l. key_of l = rm_name k) (scanned_lines r) of
        [] \<Rightarrow> rm c k
      | x # xs \<Rightarrow> Some (value_of (last (x # xs))))
   \<and> (CHR 0x00 \<notin> set r \<and> (\<forall>l\<in>set (split_lines r). l = [] \<or> has_colon l) \<longrightarrow>
        scanned_lines r = filter (\<lambda>l. l \<noteq> []) (split_lines r))
   \<and> scanned_lines ''Xft.dpi: 96\<newline>Xft.dpi: 192\<newline>'' = [''Xft.dpi: 96'', ''Xft.dpi: 192'']
   \<and> rm (parse_resource_manager zero_context (Some ''Xft.dpi: 96\<newline>Xft.dpi: 192\<newline>'')) RM_XFT_DPI
        = Some ''192''"
proof -
  have ex1: "scanned_lines ''Xft.dpi: 96\<newline>Xft.dpi: 192\<newline>'' = [''Xft.dpi: 96'', ''Xft.dpi: 192'']"
    by code_simp
  have ex2: "rm (parse_resource_manager zero_context (Some ''Xft.dpi: 96\<newline>Xft.dpi: 192\<newline>'')) RM_XFT_DPI
        = Some ''192''"
    by code_simp
  have al: "scanned_lines r = filter (\<lambda>l. l \<noteq> []) (split_lines r)"
    if "CHR 0x00 \<notin> set r \<and> (\<forall>l\<in>set (split_lines r). l = [] \<or> has_colon l)"
    using that by (intro scanned_lines_all) blast+
  show ?thesis
    using last_value_wins [of c r k] ex1 ex2 al by (intro conjI impI)
qed

theorem C6_witness:
  "CHR 0x00 \<notin> set ''Xcursor.size: 16\<newline>Xft.dpi: 96\<newline>Xcursor.size: 48''
   \<and> list_all (\<lambda>l. l = [] \<or> has_colon l) (split_lines ''Xcursor.size: 16\<newline>Xft.dpi: 96\<newline>Xcursor.size: 48'')
   \<and> scanned_lines ''Xcursor.size: 16\<newline>Xft.dpi: 96\<newline>Xcursor.size: 48''
      = [''Xcursor.size: 16'', ''Xft.dpi: 96'', ''Xcursor.size: 48'']
   \<and> rm (parse_resource_manager zero_context
         (Some ''Xcursor.size: 16\<newline>Xft.dpi: 96\<newline>Xcursor.size: 48'')) RM_XCURSOR_SIZE = Some ''48''"
proof -
  let ?r = "''Xcursor.size: 16\<newline>Xft.dpi: 96\<newline>Xcursor.size: 48''"
  have sl: "split_lines ?r = [''Xcursor.size: 16'', ''Xft.dpi: 96'', ''Xcursor.size: 48'']"
    by simp
  have h1: "CHR 0x00 \<notin> set ?r" by simp
  have h2: "\<forall>l\<in>set (split_lines ?r). l = [] \<or> has_colon l"
    by (simp only: sl) (simp add: has_colon_def)
  have s: "scanned_lines ?r = [''Xcursor.size: 16'', ''Xft.dpi: 96'', ''Xcursor.size: 48'']"
    using C6_last_value_wins [of zero_context ?r RM_XCURSOR_SIZE] h1 h2 by (simp only: sl) simp
  have k: "key_of ''Xcursor.size: 16'' = ''Xcursor.size''" "key_of ''Xft.dpi: 96'' = ''Xft.dpi''"
    "key_of ''Xcursor.size: 48'' = ''Xcursor.size''"
    by (simp_all add: key_of_def)
  have v: "value_of ''Xcursor.size: 48'' = ''48''"
    by (simp add: value_of_def isspace_def)
  have "rm (parse_resource_manager zero_context (Some ?r)) RM_XCURSOR_SIZE = Some ''48''"
    using C6_last_value_wins [of zero_context ?r RM_XCURSOR_SIZE]
    by (simp add: s k v)
  with h1 h2 s show ?thesis by (simp add: list_all_iff)
qed

text \<open>
  C10. Empty lines are passed over: the table depends only on the non-empty lines of
  the text and their order, so two blobs that differ in empty lines alone give the same
  table. In particular a newline put in at the start or the end of the blob, or next to
  another newline, changes nothing, and no empty line ends the scan.
\<close>

theorem C10_empty_lines_skipped:
  "(filter (\<lambda>l. l \<noteq> []) (split_lines (rm_text r)) = filter (\<lambda>l. l \<noteq> []) (split_lines (rm_text r'))
      \<longrightarrow> parse_resource_manager c (Some r) = parse_resource_manager c (Some r'))
   \<and> (p = [] \<or> last p = CHR 0x0A \<or> q = [] \<or> hd q = CHR 0x0A
      \<longrightarrow> parse_resource_manager c (Some (p @ CHR 0x0A # q)) = parse_resource_manager c (Some (p @ q)))
   \<and> map (rm (parse_resource_manager zero_context
              (Some ''\<newline>\<newline>Xft.dpi: 96\<newline>\<newline>\<newline>Xcursor.size: 24\<newline>\<newline>'')))
         [RM_XCURSOR_THEME, RM_XCURSOR_SIZE, RM_XFT_DPI] = [None, Some ''24'', Some ''96'']"
proof -
  have ex: "map (rm (parse_resource_manager zero_context
              (Some ''\<newline>\<newline>Xft.dpi: 96\<newline>\<newline>\<newline>Xcursor.size: 24\<newline>\<newline>'')))
         [RM_XCURSOR_THEME, RM_XCURSOR_SIZE, RM_XFT_DPI] = [None, Some ''24'', Some ''96'']"
    by code_simp
  show ?thesis
    using same_lines_same_table [of r r' c] empty_line_inserted [of p q c] ex
    by (intro conjI impI)
qed

theorem C10_witness:
  "filter (\<lambda>l. l \<noteq> []) (split_lines (rm_text ''\<newline>Xft.dpi: 96\<newline>\<newline>Xcursor.size: 24\<newline>''))
     = filter (\<lambda>l. l \<noteq> []) (split_lines (rm_text ''Xft.dpi: 96\<newline>Xcursor.size: 24''))
   \<and> parse_resource_manager zero_context (Some ''\<newline>Xft.dpi: 96\<newline>\<newline>Xcursor.size: 24\<newline>'')
     = parse_resource_manager zero_context (Some ''Xft.dpi: 96\<newline>Xcursor.size: 24'')
   \<and> (''Xft.dpi: 96\<newline>'' = [] \<or> last ''Xft.dpi: 96\<newline>'' = CHR 0x0A
        \<or> ''Xcursor.size: 24'' = [] \<or> hd ''Xcursor.size: 24'' = CHR 0x0A)
   \<and> parse_resource_manager zero_context (Some (''Xft.dpi: 96\<newline>'' @ CHR 0x0A # ''Xcursor.size: 24''))
     = parse_resource_manager zero_context (Some (''Xft.dpi: 96\<newline>'' @ ''Xcursor.size: 24''))"
proof -
  have h1: "filter (\<lambda>l. l \<noteq> []) (split_lines (rm_text ''\<newline>Xft.dpi: 96\<newline>\<newline>Xcursor.size: 24\<newline>''))
     = filter (\<lambda>l. l \<noteq> []) (split_lines (rm_text ''Xft.dpi: 96\<newline>Xcursor.size: 24''))"
    by code_simp
  have h2: "''Xft.dpi: 96\<newline>'' = [] \<or> last ''Xft.dpi: 96\<newline>'' = CHR 0x0A
        \<or> ''Xcursor.size: 24'' = [] \<or> hd ''Xcursor.size: 24'' = CHR 0x0A"
    by simp
  show ?thesis
    using C10_empty_lines_skipped [of "''\<newline>Xft.dpi: 96\<newline>\<newline>Xcursor.size: 24\<newline>''"
        "''Xft.dpi: 96\<newline>Xcursor.size: 24''" zero_context "''Xft.dpi: 96\<newline>''" "''Xcursor.size: 24''"]
      h1 h2
    by blast
qed

text \<open>
  C1. When the environment holds \<open>XCURSOR_SIZE\<close>, with any value \<open>v\<close>, the result
  is \<open>atoi v\<close> converted to the unsigned 32-bit result type: \<open>atoi v\<close> itself when it is
  not negative, and \<open>atoi v + 2^32\<close> when it is. Neither the table nor the screen is
  consulted. \<open>atoi\<close> stops at the first character behind the leading digits that is not a
  digit, and a value without any digit gives 0. The value \<open>"40"\<close> gives 40.
\<close>

theorem C1_environment_override:
  "get_default_size (env(''XCURSOR_SIZE'' \<mapsto> v)) c screen = word_of_int (atoi v)
   \<and> uint (get_default_size (env(''XCURSOR_SIZE'' \<mapsto> v)) c screen)
       = (if 0 \<le> atoi v then atoi v else atoi v + 2 ^ 32)
   \<and> get_default_size (env(''XCURSOR_SIZE'' \<mapsto> v)) c screen
       = get_default_size (env(''XCURSOR_SIZE'' \<mapsto> v)) c' screen'
   \<and> ((\<forall>ch\<in>set v. \<not> isdigit ch) \<longrightarrow> get_default_size (env(''XCURSOR_SIZE'' \<mapsto> v)) c screen = 0)
   \<and> (ds \<noteq> [] \<and> (\<forall>ch\<in>set ds. isdigit ch) \<and> (rest = [] \<or> \<not> isdigit (hd rest)) \<longrightarrow>
        get_default_size (env(''XCURSOR_SIZE'' \<mapsto> ds @ rest)) c screen
          = get_default_size (env(''XCURSOR_SIZE'' \<mapsto> ds)) c screen)
   \<and> get_default_size (env(''XCURSOR_SIZE'' \<mapsto> ''40'')) c screen = 40"
proof -
  have g: "get_default_size (env(''XCURSOR_SIZE'' \<mapsto> x)) d s = word_of_int (atoi x)" for x d s
    by (rule get_default_size_env [OF getenv_upd])
  have z: "get_default_size (env(''XCURSOR_SIZE'' \<mapsto> v)) c screen = 0"
    if "\<forall>ch\<in>set v. \<not> isdigit ch"
    using atoi_no_digit [OF that] by (simp add: g)
  have st: "get_default_size (env(''XCURSOR_SIZE'' \<mapsto> ds @ rest)) c screen
          = get_default_size (env(''XCURSOR_SIZE'' \<mapsto> ds)) c screen"
    if "ds \<noteq> [] \<and> (\<forall>ch\<in>set ds. isdigit ch) \<and> (rest = [] \<or> \<not> isdigit (hd rest))"
  proof -
    from that have "atoi (ds @ rest) = atoi ds"
      by (intro atoi_stops_at_non_digit) blast+
    then show ?thesis by (simp only: g)
  qed
  have u: "uint (get_default_size (env(''XCURSOR_SIZE'' \<mapsto> v)) c screen)
       = (if 0 \<le> atoi v then atoi v else atoi v + 2 ^ 32)"
    by (simp only: g uint_atoi)
  have e: "get_default_size (env(''XCURSOR_SIZE'' \<mapsto> ''40'')) c screen = 40"
    by (simp only: g atoi_examples) simp
  show ?thesis
    using g [of v c screen] g [of v c' screen'] u z st e by (intro conjI impI) simp_all
qed

theorem C1_witness:
  "get_default_size (no_environ(''XCURSOR_SIZE'' \<mapsto> ''40px''))
       (zero_context\<lparr>rm := (rm zero_context)(RM_XCURSOR_SIZE \<mapsto> ''24'')\<rparr>) (screen_of 1920 1080)
     = get_default_size (no_environ(''XCURSOR_SIZE'' \<mapsto> ''40'')) zero_context (screen_of 0 0)
   \<and> get_default_size (no_environ(''XCURSOR_SIZE'' \<mapsto> ''40'')) zero_context (screen_of 0 0) = 40
   \<and> get_default_size (no_environ(''XCURSOR_SIZE'' \<mapsto> ''px'')) zero_context (screen_of 0 0) = 0"
proof -
  let ?c = "zero_context\<lparr>rm := (rm zero_context)(RM_XCURSOR_SIZE \<mapsto> ''24'')\<rparr>"
  have d: "''40'' \<noteq> [] \<and> (\<forall>ch\<in>set ''40''. isdigit ch) \<and> (''px'' = [] \<or> \<not> isdigit (hd ''px''))"
    by (simp add: isdigit_def)
  have n: "\<forall>ch\<in>set ''px''. \<not> isdigit ch"
    by (simp add: isdigit_def)
  have a: "get_default_size (no_environ(''XCURSOR_SIZE'' \<mapsto> ''40'' @ ''px'')) ?c (screen_of 1920 1080)
      = get_default_size (no_environ(''XCURSOR_SIZE'' \<mapsto> ''40'')) ?c (screen_of 1920 1080)"
    using C1_environment_override [of no_environ "''40''" ?c "screen_of 1920 1080" zero_context
        "screen_of 0 0" "''40''" "''px''"] d by blast
  have b: "get_default_size (no_environ(''XCURSOR_SIZE'' \<mapsto> ''40'')) ?c (screen_of 1920 1080)
      = get_default_size (no_environ(''XCURSOR_SIZE'' \<mapsto> ''40'')) zero_context (screen_of 0 0)"
    using C1_environment_override [of no_environ "''40''" ?c "screen_of 1920 1080" zero_context
        "screen_of 0 0" "''40''" "''px''"] by blast
  have e: "get_default_size (no_environ(''XCURSOR_SIZE'' \<mapsto> ''40'')) zero_context (screen_of 0 0) = 40"
    using C1_environment_override [of no_environ "''40''" zero_context "screen_of 0 0" zero_context
        "screen_of 0 0" "''40''" "''px''"] by blast
  have f: "get_default_size (no_environ(''XCURSOR_SIZE'' \<mapsto> ''px'')) zero_context (screen_of 0 0) = 0"
    using C1_environment_override [of no_environ "''px''" zero_context "screen_of 0 0" zero_context
        "screen_of 0 0" "''40''" "''px''"] n by blast
  from a b e f show ?thesis by simp
qed

text \<open>
  C1 as the specification states it, with the parse itself as the result, fails where
  the value is negative: for \<open>"-1"\<close> the parse is \<open>-1\<close> and the result is \<open>4294967295\<close>.
\<close>

theorem C1_counterexample:
  "atoi ''-1'' = - 1
   \<and> uint (get_default_size (no_environ(''XCURSOR_SIZE'' \<mapsto> ''-1'')) zero_context (screen_of 0 0))
        = 4294967295
   \<and> uint (get_default_size (no_environ(''XCURSOR_SIZE'' \<mapsto> ''-1'')) zero_context (screen_of 0 0))
        \<noteq> atoi ''-1''"
proof -
  have "uint (get_default_size (no_environ(''XCURSOR_SIZE'' \<mapsto> ''-1'')) zero_context (screen_of 0 0))
      = (if 0 \<le> atoi ''-1'' then atoi ''-1'' else atoi ''-1'' + 2 ^ 32)"
    by (simp only: get_default_size_env [OF getenv_upd] uint_atoi)
  then show ?thesis by (simp add: atoi_examples)
qed

text \<open>
  C2. \<open>get_default_size\<close> has a result for every environment, table and
  screen, and the result is an unsigned 32-bit number: it is never negative. It is 0 for
  a screen of size zero without any override. Where \<open>XCURSOR_SIZE\<close> parses to a negative
  number \<open>n\<close> the result is \<open>2^32 + n\<close>; for \<open>"-5"\<close> it is \<open>4294967291\<close>.
\<close>

theorem C2_result_range:
  "0 \<le> uint (get_default_size env c screen)
   \<and> uint (get_default_size env c screen) < 2 ^ 32
   \<and> get_default_size no_environ zero_context (screen_of 0 0) = 0
   \<and> (atoi v < 0 \<longrightarrow>
        uint (get_default_size (env(''XCURSOR_SIZE'' \<mapsto> v)) c screen) = 2 ^ 32 + atoi v)
   \<and> atoi ''-5'' = - 5
   \<and> uint (get_default_size (env(''XCURSOR_SIZE'' \<mapsto> ''-5'')) c screen) = 4294967291"
proof -
  have g: "get_default_size (env(''XCURSOR_SIZE'' \<mapsto> x)) c screen = word_of_int (atoi x)" for x
    by (rule get_default_size_env [OF getenv_upd])
  have r: "uint (get_default_size env c screen) < 2 ^ 32"
    using uint_bounded [of "get_default_size env c screen"] by simp
  have z: "get_default_size no_environ zero_context (screen_of 0 0) = 0"
    by (simp add: get_default_size_def getenv_def no_environ_def zero_context_def screen_of_def)
  have n: "uint (get_default_size (env(''XCURSOR_SIZE'' \<mapsto> v)) c screen) = 2 ^ 32 + atoi v"
    if "atoi v < 0"
    using that by (simp only: g uint_atoi) simp
  have f: "uint (get_default_size (env(''XCURSOR_SIZE'' \<mapsto> ''-5'')) c screen) = 4294967291"
    by (simp only: g uint_atoi atoi_examples) simp
  show ?thesis
    using r z n f by (intro conjI impI) (simp_all add: atoi_examples)
qed

theorem C2_witness:
  "atoi ''-24'' < 0
   \<and> uint (get_default_size (no_environ(''XCURSOR_SIZE'' \<mapsto> ''-24'')) zero_context (screen_of 0 0))
       = 2 ^ 32 + atoi ''-24''
   \<and> 0 \<le> uint (get_default_size (no_environ(''XCURSOR_SIZE'' \<mapsto> ''-24'')) zero_context (screen_of 0 0))"
proof -
  have h: "atoi ''-24'' < 0" by (simp add: atoi_examples)
  show ?thesis
    using C2_result_range [of no_environ zero_context "screen_of 0 0" "''-24''"] h by blast
qed

text \<open>
  C2 as the specification states it, with a negative result for \<open>"-5"\<close>, fails: the
  parse is \<open>-5\<close>, the result is \<open>4294967291\<close> and it is not below 0.
\<close>

theorem C2_counterexample:
  "atoi ''-5'' = - 5
   \<and> uint (get_default_size (no_environ(''XCURSOR_SIZE'' \<mapsto> ''-5'')) zero_context (screen_of 0 0))
        = 4294967291
   \<and> \<not> uint (get_default_size (no_environ(''XCURSOR_SIZE'' \<mapsto> ''-5'')) zero_context (screen_of 0 0)) < 0"
proof -
  have "uint (get_default_size (no_environ(''XCURSOR_SIZE'' \<mapsto> ''-5'')) zero_context (screen_of 0 0))
      = (if 0 \<le> atoi ''-5'' then atoi ''-5'' else atoi ''-5'' + 2 ^ 32)"
    by (simp only: get_default_size_env [OF getenv_upd] uint_atoi)
  then show ?thesis by (simp add: atoi_examples)
qed

text \<open>
  C8. Without \<open>XCURSOR_SIZE\<close> in the environment and with a value \<open>s\<close> for
  \<open>Xcursor.size\<close> in the table, the result is \<open>atoi s\<close> converted to the unsigned
  32-bit result type: \<open>atoi s\<close> itself when it is not negative, \<open>atoi s + 2^32\<close> when it
  is. \<open>Xft.dpi\<close> and the screen are not consulted. The value \<open>"24"\<close> gives 24.
\<close>

theorem C8_table_cursor_size:
  assumes "getenv env ''XCURSOR_SIZE'' = None" and "rm c RM_XCURSOR_SIZE = Some s"
  shows "get_default_size env c screen = word_of_int (atoi s)
    \<and> uint (get_default_size env c screen) = (if 0 \<le> atoi s then atoi s else atoi s + 2 ^ 32)
    \<and> get_default_size env (c\<lparr>rm := (rm c)(RM_XFT_DPI := d)\<rparr>) screen' = get_default_size env c screen
    \<and> (s = ''24'' \<longrightarrow> get_default_size env c screen = 24)"
proof -
  have g: "get_default_size env c screen = word_of_int (atoi s)"
    using assms by (simp add: get_default_size_def)
  have i: "get_default_size env (c\<lparr>rm := (rm c)(RM_XFT_DPI := d)\<rparr>) screen' = word_of_int (atoi s)"
    using assms by (simp add: get_default_size_def)
  have u: "uint (get_default_size env c screen) = (if 0 \<le> atoi s then atoi s else atoi s + 2 ^ 32)"
    by (simp only: g uint_atoi)
  have e: "s = ''24'' \<longrightarrow> get_default_size env c screen = 24"
    by (simp add: g atoi_examples)
  show ?thesis
    using g i u e by (intro conjI) simp_all
qed

theorem C8_witness:
  "getenv no_environ ''XCURSOR_SIZE'' = None
   \<and> rm (zero_context\<lparr>rm := (rm zero_context)(RM_XCURSOR_SIZE \<mapsto> ''24'')\<rparr>) RM_XCURSOR_SIZE = Some ''24''
   \<and> get_default_size no_environ (zero_context\<lparr>rm := (rm zero_context)(RM_XCURSOR_SIZE \<mapsto> ''24'')\<rparr>)
        (screen_of 1920 1080) = 24"
proof -
  let ?c = "zero_context\<lparr>rm := (rm zero_context)(RM_XCURSOR_SIZE \<mapsto> ''24'')\<rparr>"
  have h1: "getenv no_environ ''XCURSOR_SIZE'' = None"
    by (simp add: getenv_def no_environ_def)
  have h2: "rm ?c RM_XCURSOR_SIZE = Some ''24''"
    by simp
  show ?thesis
    using C8_table_cursor_size [OF h1 h2, of "screen_of 1920 1080"] h1 h2 by blast
qed

text \<open>
  C8 as the specification states it, with the parse itself as the result, fails where
  the value is negative: for \<open>"-24"\<close> the parse is \<open>-24\<close> and the result is \<open>4294967272\<close>.
\<close>

theorem C8_counterexample:
  "getenv no_environ ''XCURSOR_SIZE'' = None
   \<and> atoi ''-24'' = - 24
   \<and> uint (get_default_size no_environ
              (zero_context\<lparr>rm := (rm zero_context)(RM_XCURSOR_SIZE \<mapsto> ''-24'')\<rparr>) (screen_of 0 0))
        = 4294967272
   \<and> uint (get_default_size no_environ
              (zero_context\<lparr>rm := (rm zero_context)(RM_XCURSOR_SIZE \<mapsto> ''-24'')\<rparr>) (screen_of 0 0))
        \<noteq> atoi ''-24''"
proof -
  let ?c = "zero_context\<lparr>rm := (rm zero_context)(RM_XCURSOR_SIZE \<mapsto> ''-24'')\<rparr>"
  have h1: "getenv no_environ ''XCURSOR_SIZE'' = None"
    by (simp add: getenv_def no_environ_def)
  have "get_default_size no_environ ?c (screen_of 0 0) = word_of_int (atoi ''-24'')"
    using h1 by (simp add: get_default_size_def)
  then have "uint (get_default_size no_environ ?c (screen_of 0 0))
      = (if 0 \<le> atoi ''-24'' then atoi ''-24'' else atoi ''-24'' + 2 ^ 32)"
    by (simp only: uint_atoi)
  then show ?thesis using h1 by (simp add: atoi_examples)
qed

text \<open>
  C4. Without \<open>XCURSOR_SIZE\<close> in the environment and without a value for
  \<open>Xcursor.size\<close>: if \<open>Xft.dpi\<close> has a value whose parse \<open>dpi\<close> is positive and below
  \<open>2^27\<close>, so that \<open>dpi * 16\<close> fits the 32-bit \<open>int\<close>, the result is \<open>dpi * 16 / 72\<close>,
  rounded down; \<open>"96"\<close> gives 21. If \<open>Xft.dpi\<close> is unset or its parse is not positive, the
  result is the smaller of the width and the height of the screen, divided by 48 and
  rounded down; 1920 by 1080 gives 22.
\<close>

theorem C4_dpi_and_screen:
  assumes "getenv env ''XCURSOR_SIZE'' = None" and "rm c RM_XCURSOR_SIZE = None"
  shows "(rm c RM_XFT_DPI = Some d \<and> 0 < atoi d \<and> atoi d < 2 ^ 27 \<longrightarrow>
            uint (get_default_size env c screen) = atoi d * 16 div 72)
    \<and> (rm c RM_XFT_DPI = None \<or> (rm c RM_XFT_DPI = Some d \<and> atoi d \<le> 0) \<longrightarrow>
            uint (get_default_size env c screen)
              = min (uint (width_in_pixels screen)) (uint (height_in_pixels screen)) div 48)
    \<and> (rm c RM_XFT_DPI = Some ''96'' \<longrightarrow> get_default_size env c screen = 21)
    \<and> (rm c RM_XFT_DPI = None \<and> screen = screen_of 1920 1080 \<longrightarrow> get_default_size env c screen = 22)"
proof -
  let ?dim = "if height_in_pixels screen < width_in_pixels screen
              then height_in_pixels screen else width_in_pixels screen"
  have a: "uint (get_default_size env c screen) = atoi d * 16 div 72"
    if "rm c RM_XFT_DPI = Some d \<and> 0 < atoi d \<and> atoi d < 2 ^ 27"
  proof -
    from that assms
    have "get_default_size env c screen = word_of_int (c_int (atoi d * 16) sdiv 72)"
      by (simp add: get_default_size_def Let_def)
    moreover from that have "0 < atoi d" "atoi d < 2 ^ 27" by simp_all
    ultimately show ?thesis by (simp only: dpi_value)
  qed
  have b: "uint (get_default_size env c screen)
      = min (uint (width_in_pixels screen)) (uint (height_in_pixels screen)) div 48"
    if "rm c RM_XFT_DPI = None \<or> (rm c RM_XFT_DPI = Some d \<and> atoi d \<le> 0)"
  proof -
    from that assms
    have "get_default_size env c screen = word_of_int (uint ?dim sdiv 48)"
      by (auto simp: get_default_size_def Let_def)
    then have "uint (get_default_size env c screen) = uint ?dim div 48"
      by (simp only: by_screen_value)
    then show ?thesis by (simp only: dim_min)
  qed
  have e1: "get_default_size env c screen = 21" if "rm c RM_XFT_DPI = Some ''96''"
    using that assms
    by (simp add: get_default_size_def Let_def atoi_examples c_int_def signed_divide_int_def)
  have e2: "get_default_size env c screen = 22"
    if "rm c RM_XFT_DPI = None \<and> screen = screen_of 1920 1080"
    using that assms
    by (simp add: get_default_size_def Let_def screen_of_def signed_divide_int_def)
  show ?thesis
    using a b e1 e2 by (intro conjI impI)
qed

theorem C4_witness:
  "getenv no_environ ''XCURSOR_SIZE'' = None
   \<and> rm (zero_context\<lparr>rm := (rm zero_context)(RM_XFT_DPI \<mapsto> ''96'')\<rparr>) RM_XCURSOR_SIZE = None
   \<and> rm (zero_context\<lparr>rm := (rm zero_context)(RM_XFT_DPI \<mapsto> ''96'')\<rparr>) RM_XFT_DPI = Some ''96''
   \<and> 0 < atoi ''96'' \<and> atoi ''96'' < 2 ^ 27
   \<and> uint (get_default_size no_environ (zero_context\<lparr>rm := (rm zero_context)(RM_XFT_DPI \<mapsto> ''96'')\<rparr>)
             (screen_of 1920 1080)) = 21
   \<and> rm zero_context RM_XCURSOR_SIZE = None \<and> rm zero_context RM_XFT_DPI = None
   \<and> uint (get_default_size no_environ zero_context (screen_of 1920 1080)) = 22
   \<and> rm (zero_context\<lparr>rm := (rm zero_context)(RM_XFT_DPI \<mapsto> ''0'')\<rparr>) RM_XFT_DPI = Some ''0''
   \<and> atoi ''0'' \<le> 0
   \<and> uint (get_default_size no_environ (zero_context\<lparr>rm := (rm zero_context)(RM_XFT_DPI \<mapsto> ''0'')\<rparr>)
             (screen_of 1920 1080)) = 22"
proof -
  let ?c = "zero_context\<lparr>rm := (rm zero_context)(RM_XFT_DPI \<mapsto> ''96'')\<rparr>"
  let ?z = "zero_context\<lparr>rm := (rm zero_context)(RM_XFT_DPI \<mapsto> ''0'')\<rparr>"
  have h1: "getenv no_environ ''XCURSOR_SIZE'' = None"
    by (simp add: getenv_def no_environ_def)
  have h2: "rm ?c RM_XCURSOR_SIZE = None" "rm ?z RM_XCURSOR_SIZE = None"
    "rm zero_context RM_XCURSOR_SIZE = None"
    by (simp_all add: zero_context_def)
  have h3: "rm ?c RM_XFT_DPI = Some ''96''" "rm ?z RM_XFT_DPI = Some ''0''"
    "rm zero_context RM_XFT_DPI = None"
    by (simp_all add: zero_context_def)
  have h4: "0 < atoi ''96''" "atoi ''96'' < 2 ^ 27" "atoi ''0'' \<le> 0"
    by (simp_all add: atoi_examples)
  have m: "min (uint (width_in_pixels (screen_of 1920 1080))) (uint (height_in_pixels (screen_of 1920 1080))) div 48
      = 22"
    by (simp add: screen_of_def)
  have r1: "uint (get_default_size no_environ ?c (screen_of 1920 1080)) = 21"
    using C4_dpi_and_screen [OF h1 h2(1), of "''96''" "screen_of 1920 1080"] h3(1) h4
    by (simp add: atoi_examples)
  have r2: "uint (get_default_size no_environ zero_context (screen_of 1920 1080)) = 22"
    using C4_dpi_and_screen [OF h1 h2(3), of "''96''" "screen_of 1920 1080"] h3(3) m
    by simp
  have r3: "uint (get_default_size no_environ ?z (screen_of 1920 1080)) = 22"
    using C4_dpi_and_screen [OF h1 h2(2), of "''0''" "screen_of 1920 1080"] h3(2) h4(3) m
    by simp
  from h1 h2 h3 h4 r1 r2 r3 show ?thesis by blast
qed

text \<open>
  C4 as the specification states it, for every positive \<open>dpi\<close>, fails where
  \<open>dpi * 16\<close> leaves the range of \<open>int\<close>: for \<open>Xft.dpi\<close> = \<open>"300000000"\<close> the low 32 bits
  of the product are \<open>505032704\<close>, which is not negative as an \<open>int\<close>, so that its
  division by 72 gives \<open>7014343\<close> whether it is signed or unsigned, where
  \<open>dpi * 16 / 72\<close> is \<open>66666666\<close>.
\<close>

theorem C4_counterexample:
  "getenv no_environ ''XCURSOR_SIZE'' = None
   \<and> atoi ''300000000'' = 300000000
   \<and> c_int (atoi ''300000000'' * 16) = 505032704
   \<and> uint (get_default_size no_environ
              (zero_context\<lparr>rm := (rm zero_context)(RM_XFT_DPI \<mapsto> ''300000000'')\<rparr>) (screen_of 1920 1080))
        = 7014343
   \<and> atoi ''300000000'' * 16 div 72 = 66666666
   \<and> uint (get_default_size no_environ
              (zero_context\<lparr>rm := (rm zero_context)(RM_XFT_DPI \<mapsto> ''300000000'')\<rparr>) (screen_of 1920 1080))
        \<noteq> atoi ''300000000'' * 16 div 72"
proof -
  let ?c = "zero_context\<lparr>rm := (rm zero_context)(RM_XFT_DPI \<mapsto> ''300000000'')\<rparr>"
  have h1: "getenv no_environ ''XCURSOR_SIZE'' = None"
    by (simp add: getenv_def no_environ_def)
  have w: "c_int 4800000000 = 505032704"
    by (simp add: c_int_def)
  have "get_default_size no_environ ?c (screen_of 1920 1080) = 7014343"
    using h1
    by (simp add: get_default_size_def Let_def zero_context_def atoi_examples w
        signed_divide_int_def)
  then show ?thesis using h1 w by (simp add: atoi_examples)
qed

text \<open>
  C9. \<open>xcb_cursor_context_free\<close> has to be given a context: for one it
  completes and frees each string of the table that is present, the picture format
  reply if present, and the context itself, each once. Given a null pointer it reads
  \<open>c->rm\<close> through that pointer: a fault, and not a release that does nothing.
\<close>

theorem C9_release:
  "(\<exists>fs. xcb_cursor_context_free (Some ctx) = Inr fs
         \<and> distinct fs
         \<and> set fs = {Freed_rm k |k. rm ctx k \<noteq> None}
               \<union> (if pf_reply ctx = None then {} else {Freed_pf_reply}) \<union> {Freed_context})
   \<and> xcb_cursor_context_free None = Inl Null_pointer_dereference"
proof -
  have k: "{Freed_rm k |k. rm ctx k \<noteq> None}
      = set (FREE (rm ctx RM_XCURSOR_THEME) (Freed_rm RM_XCURSOR_THEME)
           @ FREE (rm ctx RM_XCURSOR_SIZE) (Freed_rm RM_XCURSOR_SIZE)
           @ FREE (rm ctx RM_XFT_DPI) (Freed_rm RM_XFT_DPI))"
  proof -
    have "rm ctx k \<noteq> None \<longleftrightarrow>
        Freed_rm k \<in> set (FREE (rm ctx RM_XCURSOR_THEME) (Freed_rm RM_XCURSOR_THEME)
           @ FREE (rm ctx RM_XCURSOR_SIZE) (Freed_rm RM_XCURSOR_SIZE)
           @ FREE (rm ctx RM_XFT_DPI) (Freed_rm RM_XFT_DPI))" for k
      by (cases k) (auto simp: FREE_def)
    moreover have "x \<in> set (FREE (rm ctx RM_XCURSOR_THEME) (Freed_rm RM_XCURSOR_THEME)
           @ FREE (rm ctx RM_XCURSOR_SIZE) (Freed_rm RM_XCURSOR_SIZE)
           @ FREE (rm ctx RM_XFT_DPI) (Freed_rm RM_XFT_DPI)) \<Longrightarrow> \<exists>k. x = Freed_rm k" for x
      by (auto simp: FREE_def)
    ultimately show ?thesis by blast
  qed
  have d: "distinct (FREE (rm ctx RM_XCURSOR_THEME) (Freed_rm RM_XCURSOR_THEME)
             @ FREE (rm ctx RM_XCURSOR_SIZE) (Freed_rm RM_XCURSOR_SIZE)
             @ FREE (rm ctx RM_XFT_DPI) (Freed_rm RM_XFT_DPI)
             @ FREE (pf_reply ctx) Freed_pf_reply
             @ [Freed_context])"
    by (auto simp: FREE_def)
  have p: "set (FREE (pf_reply ctx) Freed_pf_reply) = (if pf_reply ctx = None then {} else {Freed_pf_reply})"
    by (auto simp: FREE_def)
  have "xcb_cursor_context_free (Some ctx) =
      Inr (FREE (rm ctx RM_XCURSOR_THEME) (Freed_rm RM_XCURSOR_THEME)
             @ FREE (rm ctx RM_XCURSOR_SIZE) (Freed_rm RM_XCURSOR_SIZE)
             @ FREE (rm ctx RM_XFT_DPI) (Freed_rm RM_XFT_DPI)
             @ FREE (pf_reply ctx) Freed_pf_reply
             @ [Freed_context])"
    by (simp add: xcb_cursor_context_free_def)
  moreover have "set (FREE (rm ctx RM_XCURSOR_THEME) (Freed_rm RM_XCURSOR_THEME)
             @ FREE (rm ctx RM_XCURSOR_SIZE) (Freed_rm RM_XCURSOR_SIZE)
             @ FREE (rm ctx RM_XFT_DPI) (Freed_rm RM_XFT_DPI)
             @ FREE (pf_reply ctx) Freed_pf_reply
             @ [Freed_context])
       = {Freed_rm k |k. rm ctx k \<noteq> None}
               \<union> (if pf_reply ctx = None then {} else {Freed_pf_reply}) \<union> {Freed_context}"
    unfolding k by (simp only: set_append p) auto
  moreover have "xcb_cursor_context_free None = Inl Null_pointer_dereference"
    by (simp add: xcb_cursor_context_free_def)
  ultimately show ?thesis using d by blast
qed

theorem C9_witness:
  "xcb_cursor_context_free (Some (zero_context\<lparr>rm := (rm zero_context)(RM_XCURSOR_THEME \<mapsto> ''Foo'')\<rparr>))
     = Inr [Freed_rm RM_XCURSOR_THEME, Freed_context]
   \<and> xcb_cursor_context_free None = Inl Null_pointer_dereference"
proof -
  have "xcb_cursor_context_free (Some (zero_context\<lparr>rm := (rm zero_context)(RM_XCURSOR_THEME \<mapsto> ''Foo'')\<rparr>))
     = Inr [Freed_rm RM_XCURSOR_THEME, Freed_context]"
    by (simp add: xcb_cursor_context_free_def FREE_def zero_context_def)
  then show ?thesis
    using C9_release [of zero_context] by blast
qed

text \<open>
  C9 as the specification states it fails: the release of a null pointer is the fault
  and not the empty list of blocks.
\<close>

theorem C9_counterexample:
  "xcb_cursor_context_free None \<noteq> Inr []"
  by (simp add: xcb_cursor_context_free_def)

end
